theory Spec2Isabelle
  imports Main "HOL-Library.Sublist"
begin

section \<open>The manifest scanner of bootJVM (\<^verbatim>\<open>jvm/src/manifest.c\<close>)\<close>

text \<open>
  \<^verbatim>\<open>manifest_get_main\<close> opens a JAR manifest, reads it line by line with \<^verbatim>\<open>fgets\<close>
  and returns the class name that follows the first \<^verbatim>\<open>Main-Class:\<close> attribute.
  The embedding keeps the C view of the data: a text buffer is the list of bytes that
  \<^verbatim>\<open>fgets\<close> stored in it, the terminating NUL is implicit after the last of them, and
  the string functions stop at the first NUL byte they meet.
\<close>

subsection \<open>C strings\<close>

type_synonym rchar = char

definition NUL :: rchar where
  "NUL = CHR 0x00"

text \<open>The byte at the head of a C string; past the stored bytes it is the terminator.\<close>

fun cstr_hd :: "rchar list \<Rightarrow> rchar" where
  "cstr_hd [] = NUL"
| "cstr_hd (c # cs) = c"

fun strlen :: "rchar list \<Rightarrow> nat" where
  "strlen [] = 0"
| "strlen (c # cs) = (if c = NUL then 0 else Suc (strlen cs))"

text \<open>
  \<^verbatim>\<open>strncmp(s1, s2, n)\<close>: compares at most \<open>n\<close> bytes as unsigned values and stops
  behind a NUL byte common to both strings.
\<close>

fun strncmp :: "rchar list \<Rightarrow> rchar list \<Rightarrow> nat \<Rightarrow> int" where
  "strncmp s1 s2 0 = 0"
| "strncmp s1 s2 (Suc n) =
     (let c1 = cstr_hd s1; c2 = cstr_hd s2
      in if c1 \<noteq> c2 then int (of_char c1) - int (of_char c2)
         else if c1 = NUL then 0
         else strncmp (tl s1) (tl s2) n)"

text \<open>
  \<^verbatim>\<open>isspace\<close> of \<^verbatim>\<open><ctype.h>\<close> in the C locale: space, horizontal tab, line feed,
  vertical tab, form feed and carriage return. The C function returns non-zero for
  these; the model returns the truth value.
\<close>

definition isspace :: "rchar \<Rightarrow> bool" where
  "isspace c =
     (c = CHR 0x20 \<or> c = CHR 0x09 \<or> c = CHR 0x0A \<or> c = CHR 0x0B \<or> c = CHR 0x0C \<or> c = CHR 0x0D)"

subsection \<open>The stream\<close>

text \<open>
  \<open>read_line k s\<close> takes at most \<open>k\<close> bytes from the unread bytes \<open>s\<close> of a stream and
  stops behind a line feed, which it keeps. It returns the bytes taken and the bytes
  left.
\<close>

fun read_line :: "nat \<Rightarrow> rchar list \<Rightarrow> rchar list \<times> rchar list" where
  "read_line 0 s = ([], s)"
| "read_line (Suc k) [] = ([], [])"
| "read_line (Suc k) (c # s) =
     (if c = CHR 0x0A then ([c], s)
      else (case read_line k s of (l, r) \<Rightarrow> (c # l, r)))"

text \<open>
  \<^verbatim>\<open>fgets(buf, n, stream)\<close> stores at most \<open>n - 1\<close> bytes. It returns the null pointer
  (\<open>None\<close>) at end of file when no byte was read, and for \<open>n = 0\<close>; for \<open>n = 1\<close> it
  stores the empty string and reads nothing.
\<close>

definition fgets :: "nat \<Rightarrow> rchar list \<Rightarrow> (rchar list \<times> rchar list) option" where
  "fgets n s =
     (if n = 0 then None
      else if n = 1 then Some ([], s)
      else (case read_line (n - 1) s of
              ([], r) \<Rightarrow> None
            | (c # l, r) \<Rightarrow> Some (c # l, r)))"

subsection \<open>Constants of the configuration headers\<close>

text \<open>
  Modelled from the spec: \<^verbatim>\<open>JVMCFG_JARFILE_MANIFEST_MAIN_CLASS\<close> is defined in
  \<^verbatim>\<open>jvmcfg.h\<close>, which is not part of the sources. The specification gives the attribute
  name as the literal \<^verbatim>\<open>Main-Class:\<close>, colon included, and so does the comment in front
  of \<^verbatim>\<open>manifest_get_main\<close>. The buffer size \<^verbatim>\<open>JVMCFG_STDIO_BFR\<close> of the same header is
  a parameter \<open>bfr\<close> of the model.
\<close>

definition JVMCFG_JARFILE_MANIFEST_MAIN_CLASS :: "rchar list" where
  "JVMCFG_JARFILE_MANIFEST_MAIN_CLASS = ''Main-Class:''"

definition mclen :: nat where
  "mclen = strlen JVMCFG_JARFILE_MANIFEST_MAIN_CLASS"

datatype exit_code = EXIT_MANIFEST_JAR

subsection \<open>State and results\<close>

text \<open>
  What a call of \<^verbatim>\<open>manifest_get_main\<close> does besides computing its result: it holds a
  stream handle \<^verbatim>\<open>mf\<close> and consumes bytes from it, it holds heap blocks, and it may
  write messages with \<^verbatim>\<open>sysErrMsg\<close>. The state counts the lines that \<^verbatim>\<open>fgets\<close> has
  delivered and the heap blocks that are live.
\<close>

record world =
  mf_open :: bool
  mf_unread :: "rchar list"
  lines_read :: nat
  heap_blocks :: nat
  err_msgs :: "(string \<times> string) list"

text \<open>
  The call either returns a pointer, \<^verbatim>\<open>rnull\<close> (\<open>None\<close>) or a heap block holding a
  string, or it leaves through \<^verbatim>\<open>exit_jvm\<close> and never returns, or it is left inside
  \<^verbatim>\<open>HEAP_GET_DATA\<close> when that has no block to deliver.
\<close>

datatype result = Return "rchar list option" | Exit exit_code | HeapFailure

subsection \<open>The heap\<close>

text \<open>
  \<^verbatim>\<open>HEAP_GET_DATA\<close> and \<^verbatim>\<open>HEAP_FREE_DATA\<close> come from \<^verbatim>\<open>heap.h\<close>, which is not part of
  the sources. Whether a request is served is a parameter of the model: \<open>heap k n\<close>
  tells whether a request for \<open>n\<close> bytes is served while the call holds \<open>k\<close>
  blocks. The function makes at most two requests, one after the other, so this
  covers every allocator. By the comment at line 159 of the source (after a failure
  of the second request the line buffer is never released) a request that is not
  served does not come back to the function: \<open>None\<close>. The second argument of
  \<^verbatim>\<open>HEAP_GET_DATA\<close>, which asks for a cleared block, has no effect on what is modelled.
\<close>

type_synonym heap = "nat \<Rightarrow> nat \<Rightarrow> bool"

definition HEAP_GET_DATA :: "heap \<Rightarrow> nat \<Rightarrow> world \<Rightarrow> world option" where
  "HEAP_GET_DATA heap n w =
     (if heap (heap_blocks w) n then Some (w\<lparr>heap_blocks := Suc (heap_blocks w)\<rparr>)
      else None)"

definition HEAP_FREE_DATA :: "world \<Rightarrow> world" where
  "HEAP_FREE_DATA w = w\<lparr>heap_blocks := heap_blocks w - 1\<rparr>"

text \<open>A heap that serves every request, one that serves none, and one that serves a
  request only while the call holds no block.\<close>

definition heap_unbounded :: heap where
  "heap_unbounded k n = True"



subsection \<open>The two scans of a matching line\<close>

text \<open>
  \<^verbatim>\<open>for (i = mclen; i < strlen(mnfdata); i++) if (0 == isspace(mnfdata[i])) break;\<close>
\<close>

function first_nonwhite :: "rchar list \<Rightarrow> nat \<Rightarrow> nat" where
  "first_nonwhite mnfdata i =
     (if i < strlen mnfdata
      then (if \<not> isspace (mnfdata ! i) then i else first_nonwhite mnfdata (Suc i))
      else i)"
  by pat_completeness auto
termination
  by (relation "measure (\<lambda>(mnfdata, i). strlen mnfdata - i)") auto

text \<open>
  \<^verbatim>\<open>for (j = i; j < strlen(mnfdata); j++) if (0 != isspace(mnfdata[j])) break;\<close>
\<close>

function first_white :: "rchar list \<Rightarrow> nat \<Rightarrow> nat" where
  "first_white mnfdata j =
     (if j < strlen mnfdata
      then (if isspace (mnfdata ! j) then j else first_white mnfdata (Suc j))
      else j)"
  by pat_completeness auto
termination
  by (relation "measure (\<lambda>(mnfdata, j). strlen mnfdata - j)") auto

declare first_nonwhite.simps [simp del] first_white.simps [simp del]

subsection \<open>The body of the loop behind a match\<close>

text \<open>
  Lines 123 to 177: both scans, \<^verbatim>\<open>fclose\<close>, then either the request for a block of
  \<open>j - i\<close> bytes and one \<^verbatim>\<open>rchar\<close> more, the copy of the bytes \<open>i ..< j\<close> into it, the
  release of the line buffer and the return of the copy, or the release of the line
  buffer, the message and \<^verbatim>\<open>exit_jvm\<close>. When the request is not served the call ends
  there, the line buffer still allocated.
\<close>

definition attr_found :: "heap \<Rightarrow> string \<Rightarrow> rchar list \<Rightarrow> world \<Rightarrow> result \<times> world" where
  "attr_found heap mnfname mnfdata w =
     (let i = first_nonwhite mnfdata mclen;
          j = first_white mnfdata i;
          w1 = w\<lparr>mf_open := False\<rparr>
      in if i \<noteq> j
         then (case HEAP_GET_DATA heap (j - i + 1) w1 of
                 None \<Rightarrow> (HeapFailure, w1)
               | Some w2 \<Rightarrow>
                   (let mnfresult = take (j - i) (drop i mnfdata)
                    in (Return (Some mnfresult), HEAP_FREE_DATA w2)))
         else (let w2 = HEAP_FREE_DATA w1
               in (Exit EXIT_MANIFEST_JAR,
                   w2\<lparr>err_msgs := err_msgs w2 @
                        [(''manifest_get_main'',
                          ''Missing class name in manifest file '' @ mnfname)]\<rparr>)))"

subsection \<open>The reading loop and the function\<close>

text \<open>
  \<^verbatim>\<open>while (mnfdata == fgets(mnfdata, JVMCFG_STDIO_BFR, mf))\<close>: a line that does not
  start with the attribute name is skipped, the first one that does ends the call.
  When \<^verbatim>\<open>fgets\<close> returns the null pointer the stream is closed, the line buffer is
  released and \<^verbatim>\<open>rnull\<close> is returned. The loop need not end (a buffer of one byte
  never reads anything), so its result is optional.
\<close>

partial_function (option) read_loop ::
  "heap \<Rightarrow> nat \<Rightarrow> string \<Rightarrow> world \<Rightarrow> (result \<times> world) option" where
  "read_loop heap bfr mnfname w =
     (case fgets bfr (mf_unread w) of
        None \<Rightarrow> Some (Return None, HEAP_FREE_DATA (w\<lparr>mf_open := False\<rparr>))
      | Some (mnfdata, rest) \<Rightarrow>
          (let w1 = w\<lparr>mf_unread := rest, lines_read := Suc (lines_read w)\<rparr>
           in if strncmp mnfdata JVMCFG_JARFILE_MANIFEST_MAIN_CLASS mclen \<noteq> 0
              then read_loop heap bfr mnfname w1
              else Some (attr_found heap mnfname mnfdata w1)))"

declare read_loop.simps [code]

text \<open>The state in which no stream is held, nothing is allocated and nothing is logged.\<close>

definition world0 :: world where
  "world0 = \<lparr>mf_open = False, mf_unread = [], lines_read = 0, heap_blocks = 0, err_msgs = []\<rparr>"

text \<open>
  The file system maps a path to the bytes of the file; \<^verbatim>\<open>fopen\<close> fails on a path it
  does not map, and the function then returns \<^verbatim>\<open>rnull\<close> at once. Behind a successful
  \<^verbatim>\<open>fopen\<close> the line buffer of \<^verbatim>\<open>JVMCFG_STDIO_BFR\<close> bytes is requested (line 99), with
  the stream open; when the request is not served the call ends there, before any
  \<^verbatim>\<open>fclose\<close>.
\<close>

definition manifest_get_main ::
  "heap \<Rightarrow> nat \<Rightarrow> (string \<rightharpoonup> rchar list) \<Rightarrow> string \<Rightarrow> (result \<times> world) option" where
  "manifest_get_main heap bfr fs mnfname =
     (case fs mnfname of
        None \<Rightarrow> Some (Return None, world0)
      | Some content \<Rightarrow>
          (let w = world0\<lparr>mf_open := True, mf_unread := content\<rparr>
           in case HEAP_GET_DATA heap bfr w of
                None \<Rightarrow> Some (HeapFailure, w)
              | Some w1 \<Rightarrow> read_loop heap bfr mnfname w1))"

subsection \<open>The lines of a stream\<close>

text \<open>
  The sequence of lines that successive calls of \<^verbatim>\<open>fgets\<close> deliver from the bytes
  \<open>s\<close>, up to the end of the stream.
\<close>

function fgets_lines :: "nat \<Rightarrow> rchar list \<Rightarrow> rchar list list" where
  "fgets_lines n s =
     (case fgets n s of
        None \<Rightarrow> []
      | Some (l, r) \<Rightarrow> if length r < length s then l # fgets_lines n r else [])"
  by pat_completeness auto
termination
  by (relation "measure (\<lambda>(n, s). length s)") auto

declare fgets_lines.simps [simp del]

section \<open>Properties of the string functions and of the two scans\<close>

lemma strlen_le_length: "strlen s \<le> length s"
  by (induction s) auto

lemma strlen_nth_not_NUL: "k < strlen s \<Longrightarrow> s ! k \<noteq> NUL"
proof (induction s arbitrary: k)
  case Nil
  then show ?case by simp
next
  case (Cons c cs)
  then show ?case by (cases k) (auto split: if_splits)
qed

lemma strlen_append: "NUL \<notin> set a \<Longrightarrow> strlen (a @ b) = length a + strlen b"
  by (induction a) auto

lemma strlen_no_NUL: "NUL \<notin> set s \<Longrightarrow> strlen s = length s"
  using strlen_append [of s "[]"] by simp

lemma of_char_diff_eq_0: "(int (of_char (c1::char)) - int (of_char c2) = 0) = (c1 = c2)"
  by auto

lemma strncmp_eq_0_iff_prefix:
  "NUL \<notin> set p \<Longrightarrow> (strncmp s p (length p) = 0) = prefix p s"
proof (induction p arbitrary: s)
  case Nil
  then show ?case by simp
next
  case (Cons x xs)
  then have x: "x \<noteq> NUL" and xs: "NUL \<notin> set xs" by auto
  show ?case
  proof (cases s)
    case Nil
    with x show ?thesis by (auto simp: Let_def)
  next
    case (Cons y ys)
    with x Cons.IH [OF xs, of ys] show ?thesis by (auto simp: Let_def)
  qed
qed

lemma MAIN_CLASS_no_NUL: "NUL \<notin> set JVMCFG_JARFILE_MANIFEST_MAIN_CLASS"
  by (simp add: JVMCFG_JARFILE_MANIFEST_MAIN_CLASS_def NUL_def)

lemma mclen_eq_length: "mclen = length JVMCFG_JARFILE_MANIFEST_MAIN_CLASS"
  by (simp add: mclen_def strlen_no_NUL MAIN_CLASS_no_NUL)

lemma mclen_eq_11: "mclen = 11"
  by (simp add: mclen_eq_length JVMCFG_JARFILE_MANIFEST_MAIN_CLASS_def)

lemma strncmp_MAIN_CLASS:
  "(strncmp s JVMCFG_JARFILE_MANIFEST_MAIN_CLASS mclen = 0) =
   prefix JVMCFG_JARFILE_MANIFEST_MAIN_CLASS s"
  by (simp add: mclen_eq_length strncmp_eq_0_iff_prefix MAIN_CLASS_no_NUL)

lemma first_nonwhite_ge: "i \<le> first_nonwhite s i"
  by (induction s i rule: first_nonwhite.induct) (subst first_nonwhite.simps, auto)

lemma first_nonwhite_le: "i \<le> strlen s \<Longrightarrow> first_nonwhite s i \<le> strlen s"
  by (induction s i rule: first_nonwhite.induct) (subst first_nonwhite.simps, auto)

lemma first_nonwhite_skipped:
  "i \<le> k \<Longrightarrow> k < first_nonwhite s i \<Longrightarrow> isspace (s ! k)"
proof (induction s i rule: first_nonwhite.induct)
  case (1 s i)
  show ?case
  proof (cases "i < strlen s \<and> isspace (s ! i)")
    case True
    then have eq: "first_nonwhite s i = first_nonwhite s (Suc i)"
      by (subst first_nonwhite.simps) simp
    show ?thesis
    proof (cases "k = i")
      case True
      with \<open>i < strlen s \<and> isspace (s ! i)\<close> show ?thesis by simp
    next
      case False
      with "1.prems" eq True "1.IH" show ?thesis by auto
    qed
  next
    case False
    then have "first_nonwhite s i = i"
      by (subst first_nonwhite.simps) auto
    with "1.prems" show ?thesis by simp
  qed
qed

lemma first_nonwhite_stops:
  "first_nonwhite s i < strlen s \<Longrightarrow> \<not> isspace (s ! first_nonwhite s i)"
  by (induction s i rule: first_nonwhite.induct) (subst (asm) (2) first_nonwhite.simps, subst first_nonwhite.simps, auto split: if_splits)

lemma first_white_ge: "j \<le> first_white s j"
  by (induction s j rule: first_white.induct) (subst first_white.simps, auto)

lemma first_white_le: "j \<le> strlen s \<Longrightarrow> first_white s j \<le> strlen s"
  by (induction s j rule: first_white.induct) (subst first_white.simps, auto)

lemma first_white_skipped:
  "j \<le> k \<Longrightarrow> k < first_white s j \<Longrightarrow> \<not> isspace (s ! k)"
proof (induction s j rule: first_white.induct)
  case (1 s j)
  show ?case
  proof (cases "j < strlen s \<and> \<not> isspace (s ! j)")
    case True
    then have eq: "first_white s j = first_white s (Suc j)"
      by (subst first_white.simps) simp
    show ?thesis
    proof (cases "k = j")
      case True
      with \<open>j < strlen s \<and> \<not> isspace (s ! j)\<close> show ?thesis by simp
    next
      case False
      with "1.prems" eq True "1.IH" show ?thesis by auto
    qed
  next
    case False
    then have "first_white s j = j"
      by (subst first_white.simps) auto
    with "1.prems" show ?thesis by simp
  qed
qed

lemma first_white_stops:
  "first_white s j < strlen s \<Longrightarrow> isspace (s ! first_white s j)"
  by (induction s j rule: first_white.induct) (subst (asm) (2) first_white.simps, subst first_white.simps, auto split: if_splits)

section \<open>Properties of the stream\<close>

lemma read_line_append: "read_line k s = (l, r) \<Longrightarrow> s = l @ r"
  by (induction k s arbitrary: l r rule: read_line.induct) (auto split: if_splits prod.splits)

lemma read_line_nonempty: "0 < k \<Longrightarrow> s \<noteq> [] \<Longrightarrow> fst (read_line k s) \<noteq> []"
  by (cases k; cases s) (auto split: prod.splits)

lemma fgets_append: "fgets n s = Some (l, r) \<Longrightarrow> s = l @ r"
  by (auto simp: fgets_def split: if_splits prod.splits list.splits dest: read_line_append)

lemma fgets_nonempty: "2 \<le> n \<Longrightarrow> fgets n s = Some (l, r) \<Longrightarrow> l \<noteq> []"
  by (auto simp: fgets_def split: if_splits prod.splits list.splits)

lemma fgets_shorter: "2 \<le> n \<Longrightarrow> fgets n s = Some (l, r) \<Longrightarrow> length r < length s"
  using fgets_append [of n s l r] fgets_nonempty [of n s l r] by auto

lemma fgets_None: "2 \<le> n \<Longrightarrow> (fgets n s = None) = (s = [])"
proof -
  assume n: "2 \<le> n"
  then obtain k where k: "n - 1 = Suc k" by (cases "n - 1") auto
  show ?thesis
  proof (cases s)
    case Nil
    with n k show ?thesis by (simp add: fgets_def)
  next
    case (Cons c cs)
    with n k show ?thesis by (auto simp: fgets_def split: prod.splits list.splits)
  qed
qed

lemma fgets_lines_Nil: "2 \<le> n \<Longrightarrow> fgets_lines n s = [] \<Longrightarrow> fgets n s = None"
  by (subst (asm) fgets_lines.simps) (auto split: option.splits if_splits dest: fgets_shorter)

lemma fgets_lines_Cons:
  "fgets_lines n s = l # ls \<Longrightarrow> \<exists>r. fgets n s = Some (l, r) \<and> fgets_lines n r = ls \<and> s = l @ r"
  by (subst (asm) fgets_lines.simps) (auto split: option.splits if_splits dest: fgets_append)

lemma fgets_lines_concat: "2 \<le> n \<Longrightarrow> concat (fgets_lines n s) = s"
proof (induction n s rule: fgets_lines.induct)
  case (1 n s)
  show ?case
  proof (cases "fgets n s")
    case None
    with "1.prems" have "s = []" by (simp add: fgets_None)
    with None show ?thesis by (subst fgets_lines.simps) simp
  next
    case (Some a)
    obtain l r where a: "a = (l, r)" by (cases a)
    from Some a "1.prems" have sh: "length r < length s" by (auto dest: fgets_shorter)
    from Some a have s: "s = l @ r" by (auto dest: fgets_append)
    from "1.IH" [OF Some a [symmetric] sh "1.prems"] have "concat (fgets_lines n r) = r" .
    with Some a sh s show ?thesis by (subst fgets_lines.simps) simp
  qed
qed

lemma fgets_lines_length: "length (fgets_lines n s) \<le> length s"
proof (induction n s rule: fgets_lines.induct)
  case (1 n s)
  show ?case
  proof (cases "fgets n s")
    case None
    then show ?thesis by (subst fgets_lines.simps) simp
  next
    case (Some a)
    obtain l r where a: "a = (l, r)" by (cases a)
    show ?thesis
    proof (cases "length r < length s")
      case True
      from "1.IH" [OF Some a [symmetric] True] True Some a show ?thesis
        by (subst fgets_lines.simps) simp
    next
      case False
      with Some a show ?thesis by (subst fgets_lines.simps) simp
    qed
  qed
qed

section \<open>The reading loop, line by line\<close>

lemma fgets_lines_nonempty_bfr: "fgets_lines n s \<noteq> [] \<Longrightarrow> 2 \<le> n"
  by (subst (asm) fgets_lines.simps) (auto simp: fgets_def split: option.splits if_splits)

lemma read_loop_eof:
  "fgets bfr (mf_unread w) = None \<Longrightarrow>
   read_loop heap bfr mnfname w =
   Some (Return None, w\<lparr>mf_open := False, heap_blocks := heap_blocks w - 1\<rparr>)"
  by (subst read_loop.simps) (simp add: HEAP_FREE_DATA_def)

lemma read_loop_skip:
  "fgets bfr (mf_unread w) = Some (l, r) \<Longrightarrow>
   \<not> prefix JVMCFG_JARFILE_MANIFEST_MAIN_CLASS l \<Longrightarrow>
   read_loop heap bfr mnfname w =
   read_loop heap bfr mnfname (w\<lparr>mf_unread := r, lines_read := Suc (lines_read w)\<rparr>)"
  by (subst read_loop.simps) (simp add: strncmp_MAIN_CLASS)

lemma read_loop_match:
  "fgets bfr (mf_unread w) = Some (l, r) \<Longrightarrow>
   prefix JVMCFG_JARFILE_MANIFEST_MAIN_CLASS l \<Longrightarrow>
   read_loop heap bfr mnfname w =
   Some (attr_found heap mnfname l (w\<lparr>mf_unread := r, lines_read := Suc (lines_read w)\<rparr>))"
  by (subst read_loop.simps) (simp add: strncmp_MAIN_CLASS)

lemma read_loop_no_match:
  "2 \<le> bfr \<Longrightarrow> fgets_lines bfr (mf_unread w) = ls \<Longrightarrow>
   \<forall>l\<in>set ls. \<not> prefix JVMCFG_JARFILE_MANIFEST_MAIN_CLASS l \<Longrightarrow>
   read_loop heap bfr mnfname w =
   Some (Return None,
         w\<lparr>mf_open := False, mf_unread := [], lines_read := lines_read w + length ls,
           heap_blocks := heap_blocks w - 1\<rparr>)"
proof (induction ls arbitrary: w)
  case Nil
  then have none: "fgets bfr (mf_unread w) = None" by (simp add: fgets_lines_Nil)
  with Nil.prems have "mf_unread w = []" by (simp add: fgets_None)
  then have "w\<lparr>mf_open := False, mf_unread := [], lines_read := lines_read w + length ([]::rchar list list),
           heap_blocks := heap_blocks w - 1\<rparr> = w\<lparr>mf_open := False, heap_blocks := heap_blocks w - 1\<rparr>"
    by (cases w) simp
  then show ?case using read_loop_eof [OF none, where heap = heap and mnfname = mnfname] by simp
next
  case (Cons l ls)
  from fgets_lines_Cons [OF Cons.prems(2)] obtain r
    where f: "fgets bfr (mf_unread w) = Some (l, r)" and ls: "fgets_lines bfr r = ls"
    by blast
  let ?w = "w\<lparr>mf_unread := r, lines_read := Suc (lines_read w)\<rparr>"
  from Cons.prems(3) have nl: "\<not> prefix JVMCFG_JARFILE_MANIFEST_MAIN_CLASS l"
    and nls: "\<forall>l\<in>set ls. \<not> prefix JVMCFG_JARFILE_MANIFEST_MAIN_CLASS l" by auto
  from ls have "fgets_lines bfr (mf_unread ?w) = ls" by simp
  from Cons.IH [OF Cons.prems(1) this nls] read_loop_skip [OF f nl, where heap = heap and mnfname = mnfname]
  show ?case by simp
qed

lemma read_loop_first_match:
  "fgets_lines bfr (mf_unread w) = pre @ l # post \<Longrightarrow>
   \<forall>x\<in>set pre. \<not> prefix JVMCFG_JARFILE_MANIFEST_MAIN_CLASS x \<Longrightarrow>
   prefix JVMCFG_JARFILE_MANIFEST_MAIN_CLASS l \<Longrightarrow>
   read_loop heap bfr mnfname w =
   Some (attr_found heap mnfname l
           (w\<lparr>mf_unread := concat post, lines_read := lines_read w + Suc (length pre)\<rparr>))"
proof (induction pre arbitrary: w)
  case Nil
  then have "fgets_lines bfr (mf_unread w) = l # post" by simp
  from fgets_lines_Cons [OF this] obtain r
    where f: "fgets bfr (mf_unread w) = Some (l, r)" and p: "fgets_lines bfr r = post"
    by blast
  from Nil.prems(1) have "fgets_lines bfr (mf_unread w) \<noteq> []" by simp
  then have "2 \<le> bfr" by (rule fgets_lines_nonempty_bfr)
  from fgets_lines_concat [OF this, of r] p have "concat post = r" by simp
  with read_loop_match [OF f Nil.prems(3), where heap = heap and mnfname = mnfname] show ?case by simp
next
  case (Cons x pre)
  then have "fgets_lines bfr (mf_unread w) = x # (pre @ l # post)" by simp
  from fgets_lines_Cons [OF this] obtain r
    where f: "fgets bfr (mf_unread w) = Some (x, r)"
      and p: "fgets_lines bfr r = pre @ l # post"
    by blast
  let ?w = "w\<lparr>mf_unread := r, lines_read := Suc (lines_read w)\<rparr>"
  from Cons.prems(2) have nx: "\<not> prefix JVMCFG_JARFILE_MANIFEST_MAIN_CLASS x"
    and npre: "\<forall>x\<in>set pre. \<not> prefix JVMCFG_JARFILE_MANIFEST_MAIN_CLASS x" by auto
  from p have "fgets_lines bfr (mf_unread ?w) = pre @ l # post" by simp
  from Cons.IH [OF this npre Cons.prems(3)] read_loop_skip [OF f nx, where heap = heap and mnfname = mnfname]
  show ?case by simp
qed

section \<open>The function as a whole\<close>

lemma prefix_MAIN_CLASS_strlen:
  "prefix JVMCFG_JARFILE_MANIFEST_MAIN_CLASS l \<Longrightarrow> mclen \<le> strlen l"
  by (auto simp: prefix_def strlen_append MAIN_CLASS_no_NUL mclen_eq_length)

lemma scans_ordered:
  "mclen \<le> strlen l \<Longrightarrow>
   mclen \<le> first_nonwhite l mclen \<and>
   first_nonwhite l mclen \<le> first_white l (first_nonwhite l mclen) \<and>
   first_white l (first_nonwhite l mclen) \<le> strlen l"
  by (simp add: first_nonwhite_ge first_white_ge first_nonwhite_le first_white_le)

lemma manifest_get_main_no_file:
  "fs mnfname = None \<Longrightarrow> manifest_get_main heap bfr fs mnfname = Some (Return None, world0)"
  by (simp add: manifest_get_main_def)

lemma manifest_get_main_line_buffer:
  "fs mnfname = Some content \<Longrightarrow> heap 0 bfr \<Longrightarrow>
   manifest_get_main heap bfr fs mnfname =
   read_loop heap bfr mnfname
     (world0\<lparr>mf_open := True, mf_unread := content, heap_blocks := 1\<rparr>)"
  by (simp add: manifest_get_main_def HEAP_GET_DATA_def world0_def Let_def)

lemma manifest_get_main_no_line_buffer:
  "fs mnfname = Some content \<Longrightarrow> \<not> heap 0 bfr \<Longrightarrow>
   manifest_get_main heap bfr fs mnfname =
   Some (HeapFailure, world0\<lparr>mf_open := True, mf_unread := content\<rparr>)"
  by (simp add: manifest_get_main_def HEAP_GET_DATA_def world0_def Let_def)

lemma manifest_get_main_no_match:
  assumes "2 \<le> bfr" and "fs mnfname = Some content"
    and "\<forall>l\<in>set (fgets_lines bfr content). \<not> prefix JVMCFG_JARFILE_MANIFEST_MAIN_CLASS l"
    and "heap 0 bfr"
  shows "manifest_get_main heap bfr fs mnfname =
         Some (Return None, world0\<lparr>lines_read := length (fgets_lines bfr content)\<rparr>)"
proof -
  let ?w = "world0\<lparr>mf_open := True, mf_unread := content, heap_blocks := 1\<rparr>"
  have "fgets_lines bfr (mf_unread ?w) = fgets_lines bfr content" by simp
  from read_loop_no_match [OF assms(1) this assms(3), where heap = heap and mnfname = mnfname]
    manifest_get_main_line_buffer
      [where fs = fs and mnfname = mnfname and heap = heap and bfr = bfr and content = content, OF assms(2,4)]
  show ?thesis by (simp add: world0_def)
qed

lemma manifest_get_main_first_match:
  assumes "fs mnfname = Some content"
    and "fgets_lines bfr content = pre @ l # post"
    and "\<forall>x\<in>set pre. \<not> prefix JVMCFG_JARFILE_MANIFEST_MAIN_CLASS x"
    and "prefix JVMCFG_JARFILE_MANIFEST_MAIN_CLASS l"
    and "heap 0 bfr"
  shows "manifest_get_main heap bfr fs mnfname =
         Some (attr_found heap mnfname l
                 \<lparr>mf_open = True, mf_unread = concat post, lines_read = Suc (length pre),
                  heap_blocks = 1, err_msgs = []\<rparr>)"
proof -
  let ?w = "world0\<lparr>mf_open := True, mf_unread := content, heap_blocks := 1\<rparr>"
  from assms(2) have "fgets_lines bfr (mf_unread ?w) = pre @ l # post" by simp
  from read_loop_first_match [OF this assms(3,4), where heap = heap and mnfname = mnfname]
    manifest_get_main_line_buffer
      [where fs = fs and mnfname = mnfname and heap = heap and bfr = bfr and content = content, OF assms(1,5)]
  show ?thesis by (simp add: world0_def)
qed

lemma attr_found_value:
  "first_nonwhite l mclen \<noteq> first_white l (first_nonwhite l mclen) \<Longrightarrow>
   heap (heap_blocks w)
     (first_white l (first_nonwhite l mclen) - first_nonwhite l mclen + 1) \<Longrightarrow>
   attr_found heap mnfname l w =
   (Return (Some (take (first_white l (first_nonwhite l mclen) - first_nonwhite l mclen)
                       (drop (first_nonwhite l mclen) l))),
    w\<lparr>mf_open := False\<rparr>)"
  by (simp add: attr_found_def Let_def HEAP_GET_DATA_def HEAP_FREE_DATA_def)

lemma attr_found_no_block:
  "first_nonwhite l mclen \<noteq> first_white l (first_nonwhite l mclen) \<Longrightarrow>
   \<not> heap (heap_blocks w)
       (first_white l (first_nonwhite l mclen) - first_nonwhite l mclen + 1) \<Longrightarrow>
   attr_found heap mnfname l w = (HeapFailure, w\<lparr>mf_open := False\<rparr>)"
  by (simp add: attr_found_def Let_def HEAP_GET_DATA_def)

lemma attr_found_result:
  "fst (attr_found heap mnfname l w) =
   (let i = first_nonwhite l mclen; j = first_white l i
    in if i \<noteq> j
       then (if heap (heap_blocks w) (j - i + 1) then Return (Some (take (j - i) (drop i l)))
             else HeapFailure)
       else Exit EXIT_MANIFEST_JAR)"
  by (simp add: attr_found_def Let_def HEAP_GET_DATA_def)

lemma attr_found_empty:
  "first_nonwhite l mclen = first_white l (first_nonwhite l mclen) \<Longrightarrow>
   attr_found heap mnfname l w =
   (Exit EXIT_MANIFEST_JAR,
    w\<lparr>mf_open := False, heap_blocks := heap_blocks w - 1,
      err_msgs := err_msgs w @
        [(''manifest_get_main'', ''Missing class name in manifest file '' @ mnfname)]\<rparr>)"
  by (simp add: attr_found_def Let_def HEAP_FREE_DATA_def)

lemma find_first_split:
  "find P xs = Some x \<Longrightarrow> \<exists>pre post. xs = pre @ x # post \<and> (\<forall>y\<in>set pre. \<not> P y) \<and> P x"
proof (induction xs)
  case Nil
  then show ?case by simp
next
  case (Cons a xs)
  show ?case
  proof (cases "P a")
    case True
    with Cons.prems have "a = x" by simp
    with True have "a # xs = [] @ x # xs \<and> (\<forall>y\<in>set []. \<not> P y) \<and> P x" by simp
    then show ?thesis by blast
  next
    case False
    with Cons obtain pre post where "xs = pre @ x # post" "\<forall>y\<in>set pre. \<not> P y" "P x"
      by auto
    with False have "a # xs = (a # pre) @ x # post \<and> (\<forall>y\<in>set (a # pre). \<not> P y) \<and> P x"
      by simp
    then show ?thesis by blast
  qed
qed

lemma manifest_get_main_result:
  assumes "2 \<le> bfr"
  shows "map_option fst (manifest_get_main heap bfr fs mnfname) =
     Some (case fs mnfname of
             None \<Rightarrow> Return None
           | Some content \<Rightarrow>
               if \<not> heap 0 bfr then HeapFailure
               else
               (case find (prefix JVMCFG_JARFILE_MANIFEST_MAIN_CLASS) (fgets_lines bfr content) of
                  None \<Rightarrow> Return None
                | Some l \<Rightarrow>
                    (let i = first_nonwhite l mclen; j = first_white l i
                     in if i \<noteq> j
                        then (if heap 1 (j - i + 1) then Return (Some (take (j - i) (drop i l)))
                              else HeapFailure)
                        else Exit EXIT_MANIFEST_JAR)))"
proof (cases "fs mnfname")
  case None
  then show ?thesis by (simp add: manifest_get_main_no_file)
next
  case (Some content)
  note c = this
  show ?thesis
  proof (cases "heap 0 bfr")
    case False
    with c manifest_get_main_no_line_buffer
      [where fs = fs and mnfname = mnfname and heap = heap and bfr = bfr and content = content]
    show ?thesis by simp
  next
    case True
    note h = this
    show ?thesis
    proof (cases "find (prefix JVMCFG_JARFILE_MANIFEST_MAIN_CLASS) (fgets_lines bfr content)")
      case None
      then have "\<forall>l\<in>set (fgets_lines bfr content).
                   \<not> prefix JVMCFG_JARFILE_MANIFEST_MAIN_CLASS l"
        by (simp add: find_None_iff)
      from manifest_get_main_no_match
        [where fs = fs and mnfname = mnfname and heap = heap, OF assms c this h] c h None
      show ?thesis by simp
    next
      case (Some l)
      from find_first_split [OF Some] obtain pre post
        where "fgets_lines bfr content = pre @ l # post"
          and "\<forall>y\<in>set pre. \<not> prefix JVMCFG_JARFILE_MANIFEST_MAIN_CLASS y"
          and "prefix JVMCFG_JARFILE_MANIFEST_MAIN_CLASS l"
        by blast
      from manifest_get_main_first_match
        [where fs = fs and mnfname = mnfname and heap = heap, OF c this h]
      show ?thesis using Some c h by (simp add: attr_found_result Let_def)
    qed
  qed
qed

lemma manifest_get_main_returns:
  assumes "2 \<le> bfr"
  shows "\<exists>r w. manifest_get_main heap bfr fs mnfname = Some (r, w)"
proof -
  from manifest_get_main_result
    [OF assms, where heap = heap and fs = fs and mnfname = mnfname]
  obtain y where "manifest_get_main heap bfr fs mnfname = Some y" by auto
  then show ?thesis by (cases y) auto
qed

lemma attr_found_state:
  "mf_unread (snd (attr_found heap mnfname l w)) = mf_unread w \<and>
   lines_read (snd (attr_found heap mnfname l w)) = lines_read w \<and>
   \<not> mf_open (snd (attr_found heap mnfname l w))"
  by (simp add: attr_found_def Let_def HEAP_GET_DATA_def HEAP_FREE_DATA_def)

lemma manifest_get_main_closed:
  assumes "2 \<le> bfr"
  shows "\<exists>r w. manifest_get_main heap bfr fs mnfname = Some (r, w) \<and>
           mf_open w = (fs mnfname \<noteq> None \<and> \<not> heap 0 bfr) \<and>
           (mf_open w \<longrightarrow> r = HeapFailure) \<and>
           lines_read w \<le> (case fs mnfname of None \<Rightarrow> 0
                             | Some content \<Rightarrow> length (fgets_lines bfr content))"
proof (cases "fs mnfname")
  case None
  then show ?thesis by (simp add: manifest_get_main_no_file world0_def)
next
  case (Some content)
  note c = this
  let ?ls = "fgets_lines bfr content"
  show ?thesis
  proof (cases "heap 0 bfr")
    case False
    with c manifest_get_main_no_line_buffer
      [where fs = fs and mnfname = mnfname and heap = heap and bfr = bfr and content = content]
    show ?thesis by (simp add: world0_def)
  next
    case True
    note h = this
    show ?thesis
    proof (cases "find (prefix JVMCFG_JARFILE_MANIFEST_MAIN_CLASS) ?ls")
      case None
      then have "\<forall>l\<in>set ?ls. \<not> prefix JVMCFG_JARFILE_MANIFEST_MAIN_CLASS l"
        by (simp add: find_None_iff)
      from manifest_get_main_no_match
        [where fs = fs and mnfname = mnfname and heap = heap, OF assms c this h]
      show ?thesis using c h by (simp add: world0_def)
    next
      case (Some l)
      from find_first_split [OF Some] obtain pre post
        where sp: "?ls = pre @ l # post"
          and np: "\<forall>y\<in>set pre. \<not> prefix JVMCFG_JARFILE_MANIFEST_MAIN_CLASS y"
          and pl: "prefix JVMCFG_JARFILE_MANIFEST_MAIN_CLASS l"
        by blast
      let ?w = "\<lparr>mf_open = True, mf_unread = concat post, lines_read = Suc (length pre),
                 heap_blocks = 1, err_msgs = []\<rparr>"
      obtain r w where rw: "attr_found heap mnfname l ?w = (r, w)"
        by (cases "attr_found heap mnfname l ?w")
      from attr_found_state [of heap mnfname l ?w] rw
      have "\<not> mf_open w" and "lines_read w = Suc (length pre)" by simp_all
      moreover from manifest_get_main_first_match
        [where fs = fs and mnfname = mnfname and heap = heap, OF c sp np pl h] rw
      have "manifest_get_main heap bfr fs mnfname = Some (r, w)" by simp
      ultimately show ?thesis using c h sp by simp
    qed
  qed
qed

section \<open>The claims of the specification\<close>

text \<open>
  Claim C6. When no line delivered from the stream starts with the attribute name, the
  function returns \<^verbatim>\<open>rnull\<close>, the result for an attribute that is not found; every line
  has then been read, the stream is closed and nothing is left on the heap or in the
  log. A file without any byte is the case of no line at all. The line buffer is
  taken to be delivered, \<open>heap 0 bfr\<close>: without it no line is read.
\<close>

theorem no_match_returns_rnull:
  assumes "2 \<le> bfr" and "fs mnfname = Some content"
    and "\<forall>l\<in>set (fgets_lines bfr content). \<not> prefix JVMCFG_JARFILE_MANIFEST_MAIN_CLASS l"
    and "heap 0 bfr"
  shows "manifest_get_main heap bfr fs mnfname =
           Some (Return None, world0\<lparr>lines_read := length (fgets_lines bfr content)\<rparr>) \<and>
         manifest_get_main heap bfr (fs(mnfname \<mapsto> [])) mnfname = Some (Return None, world0)"
proof
  from assms show "manifest_get_main heap bfr fs mnfname =
      Some (Return None, world0\<lparr>lines_read := length (fgets_lines bfr content)\<rparr>)"
    by (rule manifest_get_main_no_match)
next
  have e: "fgets_lines bfr [] = []"
    by (subst fgets_lines.simps) (simp split: option.splits prod.splits)
  have "manifest_get_main heap bfr (fs(mnfname \<mapsto> [])) mnfname =
        Some (Return None, world0\<lparr>lines_read := length (fgets_lines bfr [])\<rparr>)"
    by (rule manifest_get_main_no_match
          [where heap = heap and bfr = bfr and content = "[]", OF assms(1) _ _ assms(4)])
       (simp_all add: e)
  then show "manifest_get_main heap bfr (fs(mnfname \<mapsto> [])) mnfname = Some (Return None, world0)"
    by (simp add: e world0_def)
qed

theorem no_match_returns_rnull_witness:
  "manifest_get_main heap_unbounded 80 (Map.empty(''m'' \<mapsto> ''Other-Attr: x\<newline>'')) ''m'' =
     Some (Return None, world0\<lparr>lines_read := 1\<rparr>) \<and>
   manifest_get_main heap_unbounded 80 (Map.empty(''m'' \<mapsto> [])) ''m'' = Some (Return None, world0)"
proof -
  let ?c = "''Other-Attr: x\<newline>''"
  have h1: "2 \<le> (80::nat)" by simp
  have h2: "(Map.empty(''m'' \<mapsto> ?c)) ''m'' = Some ?c" by simp
  have ls: "fgets_lines 80 ?c = [?c]" by code_simp
  have h3: "\<forall>l\<in>set (fgets_lines 80 ?c). \<not> prefix JVMCFG_JARFILE_MANIFEST_MAIN_CLASS l"
    unfolding ls by code_simp
  have h4: "heap_unbounded 0 80" by (simp add: heap_unbounded_def)
  from no_match_returns_rnull
    [where fs = "Map.empty(''m'' \<mapsto> ?c)" and mnfname = "''m''" and heap = heap_unbounded,
     OF h1 h2 h3 h4]
  show ?thesis unfolding ls by simp
qed

text \<open>
  Claim C3. When lines are delivered of which \<open>l\<close> is the first that starts with the
  attribute name, the result is computed from \<open>l\<close> alone: it is the text between the
  two indices found in \<open>l\<close>, or the exit for an empty value (and the end inside
  \<^verbatim>\<open>HEAP_GET_DATA\<close> when the heap has no block for the text). The call reads exactly
  the lines up to \<open>l\<close>; the bytes of all later lines \<open>post\<close> are still unread in the
  stream when it ends, whatever they are. The line buffer is taken to be delivered,
  \<open>heap 0 bfr\<close>: without it no line is read.
\<close>

theorem first_match_decides:
  assumes "fs mnfname = Some content"
    and "fgets_lines bfr content = pre @ l # post"
    and "\<forall>x\<in>set pre. \<not> prefix JVMCFG_JARFILE_MANIFEST_MAIN_CLASS x"
    and "prefix JVMCFG_JARFILE_MANIFEST_MAIN_CLASS l"
    and "i = first_nonwhite l mclen" and "j = first_white l i"
    and "heap 0 bfr"
  shows "\<exists>w. manifest_get_main heap bfr fs mnfname =
               Some (if i \<noteq> j
                     then (if heap 1 (j - i + 1) then Return (Some (take (j - i) (drop i l)))
                           else HeapFailure)
                     else Exit EXIT_MANIFEST_JAR, w) \<and>
             mf_unread w = concat post \<and> lines_read w = Suc (length pre)"
proof -
  let ?w = "\<lparr>mf_open = True, mf_unread = concat post, lines_read = Suc (length pre),
             heap_blocks = 1, err_msgs = []\<rparr>"
  obtain r w where rw: "attr_found heap mnfname l ?w = (r, w)"
    by (cases "attr_found heap mnfname l ?w")
  from attr_found_state [of heap mnfname l ?w] rw
  have st: "mf_unread w = concat post" "lines_read w = Suc (length pre)" by simp_all
  from attr_found_result [of heap mnfname l ?w] rw assms(5,6)
  have r: "r = (if i \<noteq> j
                then (if heap 1 (j - i + 1) then Return (Some (take (j - i) (drop i l)))
                      else HeapFailure)
                else Exit EXIT_MANIFEST_JAR)"
    by (simp add: Let_def)
  from manifest_get_main_first_match
    [where fs = fs and mnfname = mnfname and heap = heap,
     OF assms(1) assms(2) assms(3) assms(4) assms(7)] rw
  have "manifest_get_main heap bfr fs mnfname = Some (r, w)" by simp
  with r st show ?thesis by blast
qed

theorem first_match_decides_witness:
  "\<exists>w. manifest_get_main heap_unbounded 80
          (Map.empty(''m'' \<mapsto> ''Other: y\<newline>'' @ ''Main-Class: first.Class\<newline>'' @
                               ''Main-Class: second.Class\<newline>'')) ''m'' =
        Some (Return (Some ''first.Class''), w) \<and>
        mf_unread w = ''Main-Class: second.Class\<newline>'' \<and> lines_read w = 2"
proof -
  let ?a = "''Other: y\<newline>''"
  let ?l = "''Main-Class: first.Class\<newline>''"
  let ?b = "''Main-Class: second.Class\<newline>''"
  let ?c = "?a @ ?l @ ?b"
  have h1: "(Map.empty(''m'' \<mapsto> ?c)) ''m'' = Some ?c" by simp
  have h2: "fgets_lines 80 ?c = [?a] @ ?l # [?b]" by code_simp
  have h3: "\<forall>x\<in>set [?a]. \<not> prefix JVMCFG_JARFILE_MANIFEST_MAIN_CLASS x" by code_simp
  have h4: "prefix JVMCFG_JARFILE_MANIFEST_MAIN_CLASS ?l" by code_simp
  have h5: "12 = first_nonwhite ?l mclen" by code_simp
  have h6: "23 = first_white ?l 12" by code_simp
  have h7: "heap_unbounded 0 80" by (simp add: heap_unbounded_def)
  from first_match_decides
    [where fs = "Map.empty(''m'' \<mapsto> ?c)" and mnfname = "''m''" and heap = heap_unbounded,
     OF h1 h2 h3 h4 h5 h6 h7]
  show ?thesis by (simp add: numeral_2_eq_2 heap_unbounded_def)
qed

text \<open>
  The manifest whose only line is \<^verbatim>\<open>Main-Class:\<close>, a blank and the line feed: the call
  ends in \<^verbatim>\<open>exit_jvm\<close> and one message has been written.
\<close>

theorem empty_value_counterexample:
  "manifest_get_main heap_unbounded 80 (Map.empty(''m'' \<mapsto> ''Main-Class: \<newline>'')) ''m'' =
   Some (Exit EXIT_MANIFEST_JAR,
         \<lparr>mf_open = False, mf_unread = [], lines_read = 1, heap_blocks = 0,
          err_msgs = [(''manifest_get_main'', ''Missing class name in manifest file m'')]\<rparr>)"
  by code_simp

text \<open>
  Claim C1, as the code has it. When the first line that starts with the attribute name
  has an empty value (both scans stop at the same index), no structured result comes
  back to the caller: the function closes the stream, releases the line buffer, writes
  the message \<^verbatim>\<open>Missing class name in manifest file\<close> with the file name through
  \<^verbatim>\<open>sysErrMsg\<close> and leaves through \<^verbatim>\<open>exit_jvm(EXIT_MANIFEST_JAR)\<close>. No line behind that
  one is read: the bytes of the later lines are still in the stream. The line buffer
  is taken to be delivered, \<open>heap 0 bfr\<close>: without it no line is read.
\<close>

theorem empty_value_exits:
  assumes "fs mnfname = Some content"
    and "fgets_lines bfr content = pre @ l # post"
    and "\<forall>x\<in>set pre. \<not> prefix JVMCFG_JARFILE_MANIFEST_MAIN_CLASS x"
    and "prefix JVMCFG_JARFILE_MANIFEST_MAIN_CLASS l"
    and "first_white l (first_nonwhite l mclen) = first_nonwhite l mclen"
    and "heap 0 bfr"
  shows "manifest_get_main heap bfr fs mnfname =
         Some (Exit EXIT_MANIFEST_JAR,
               \<lparr>mf_open = False, mf_unread = concat post, lines_read = Suc (length pre),
                heap_blocks = 0,
                err_msgs = [(''manifest_get_main'',
                             ''Missing class name in manifest file '' @ mnfname)]\<rparr>)"
  using manifest_get_main_first_match
    [where fs = fs and mnfname = mnfname and heap = heap,
     OF assms(1) assms(2) assms(3) assms(4) assms(6)] assms(5)
  by (simp add: attr_found_empty)

theorem empty_value_exits_witness:
  "manifest_get_main heap_unbounded 80
     (Map.empty(''jar.mf'' \<mapsto> ''Manifest-Version: 1.0\<newline>'' @ ''Main-Class:\<newline>'' @
                                  ''Main-Class: a.B\<newline>'')) ''jar.mf'' =
   Some (Exit EXIT_MANIFEST_JAR,
         \<lparr>mf_open = False, mf_unread = ''Main-Class: a.B\<newline>'', lines_read = 2,
          heap_blocks = 0,
          err_msgs = [(''manifest_get_main'',
                       ''Missing class name in manifest file jar.mf'')]\<rparr>)"
proof -
  let ?a = "''Manifest-Version: 1.0\<newline>''"
  let ?l = "''Main-Class:\<newline>''"
  let ?b = "''Main-Class: a.B\<newline>''"
  let ?c = "?a @ ?l @ ?b"
  have h1: "(Map.empty(''jar.mf'' \<mapsto> ?c)) ''jar.mf'' = Some ?c" by simp
  have h2: "fgets_lines 80 ?c = [?a] @ ?l # [?b]" by code_simp
  have h3: "\<forall>x\<in>set [?a]. \<not> prefix JVMCFG_JARFILE_MANIFEST_MAIN_CLASS x" by code_simp
  have h4: "prefix JVMCFG_JARFILE_MANIFEST_MAIN_CLASS ?l" by code_simp
  have h5: "first_white ?l (first_nonwhite ?l mclen) = first_nonwhite ?l mclen" by code_simp
  have h6: "heap_unbounded 0 80" by (simp add: heap_unbounded_def)
  from empty_value_exits
    [where fs = "Map.empty(''jar.mf'' \<mapsto> ?c)" and mnfname = "''jar.mf''"
       and heap = heap_unbounded, OF h1 h2 h3 h4 h5 h6]
  show ?thesis by simp
qed

text \<open>
  A file that cannot be opened and a manifest without the attribute give the same
  result \<^verbatim>\<open>rnull\<close>, and an empty value gives no result but an exit.
\<close>

theorem rnull_conflated_counterexample:
  "map_option fst (manifest_get_main heap_unbounded 80 Map.empty ''m'') = Some (Return None) \<and>
   map_option fst
     (manifest_get_main heap_unbounded 80 (Map.empty(''m'' \<mapsto> ''Other-Attr: x\<newline>'')) ''m'') =
     Some (Return None) \<and>
   map_option fst
     (manifest_get_main heap_unbounded 80 (Map.empty(''m'' \<mapsto> ''Main-Class:\<newline>'')) ''m'') =
     Some (Exit EXIT_MANIFEST_JAR)"
  by code_simp

text \<open>
  Claim C2, as the code has it. With a heap that serves both requests the result of a
  call is one of three forms. It is a heap string holding the bytes between the two
  scan indices of the first line that starts with the attribute name, when these
  differ. It is \<^verbatim>\<open>rnull\<close> when no line starts with the attribute name, and it is the
  same \<^verbatim>\<open>rnull\<close> when the file cannot be opened, so the result does not tell these two
  apart. For an empty value there is no returned marker: the call leaves through
  \<^verbatim>\<open>exit_jvm(EXIT_MANIFEST_JAR)\<close>. The statement holds for every heap; where a request
  is not served the call ends inside \<^verbatim>\<open>HEAP_GET_DATA\<close>.
\<close>

theorem three_outcomes:
  assumes "2 \<le> bfr"
  shows "map_option fst (manifest_get_main heap bfr fs mnfname) =
     Some (case fs mnfname of
             None \<Rightarrow> Return None
           | Some content \<Rightarrow>
               if \<not> heap 0 bfr then HeapFailure
               else
               (case find (prefix JVMCFG_JARFILE_MANIFEST_MAIN_CLASS) (fgets_lines bfr content) of
                  None \<Rightarrow> Return None
                | Some l \<Rightarrow>
                    (let i = first_nonwhite l mclen; j = first_white l i
                     in if i \<noteq> j
                        then (if heap 1 (j - i + 1) then Return (Some (take (j - i) (drop i l)))
                              else HeapFailure)
                        else Exit EXIT_MANIFEST_JAR)))"
  using assms by (rule manifest_get_main_result)

theorem three_outcomes_witness:
  "map_option fst
     (manifest_get_main heap_unbounded 80 (Map.empty(''m'' \<mapsto> ''Main-Class: foo.Bar\<newline>'')) ''m'') =
     Some (Return (Some ''foo.Bar'')) \<and>
   map_option fst
     (manifest_get_main heap_unbounded 80 (Map.empty(''m'' \<mapsto> ''Main-Class: foo.Bar\<newline>'')) ''q'') =
     Some (Return None)"
proof -
  let ?fs = "Map.empty(''m'' \<mapsto> ''Main-Class: foo.Bar\<newline>'')"
  have h: "2 \<le> (80::nat)" by simp
  have a: "(case ?fs ''m'' of
             None \<Rightarrow> Return None
           | Some content \<Rightarrow>
               if \<not> heap_unbounded 0 80 then HeapFailure
               else
               (case find (prefix JVMCFG_JARFILE_MANIFEST_MAIN_CLASS) (fgets_lines 80 content) of
                  None \<Rightarrow> Return None
                | Some l \<Rightarrow>
                    (let i = first_nonwhite l mclen; j = first_white l i
                     in if i \<noteq> j
                        then (if heap_unbounded 1 (j - i + 1)
                              then Return (Some (take (j - i) (drop i l)))
                              else HeapFailure)
                        else Exit EXIT_MANIFEST_JAR))) = Return (Some ''foo.Bar'')"
    by code_simp
  have b: "?fs ''q'' = None" by simp
  show ?thesis
    using three_outcomes [OF h, where heap = heap_unbounded and fs = ?fs and mnfname = "''m''"]
      three_outcomes [OF h, where heap = heap_unbounded and fs = ?fs and mnfname = "''q''"]
    unfolding a b by simp
qed

text \<open>
  Claim C5. The test of a line is \<^verbatim>\<open>strncmp\<close> against the attribute name over its
  eleven bytes: it succeeds exactly when the first eleven bytes of the line are
  \<^verbatim>\<open>Main-Class:\<close>. A shorter line fails it, and so does a line in another case or with
  a blank in front of the name. The loop passes a line that succeeds to the two scans
  and goes on to the next line otherwise.
\<close>

theorem attribute_name_match:
  "JVMCFG_JARFILE_MANIFEST_MAIN_CLASS = ''Main-Class:'' \<and> mclen = 11 \<and>
   (strncmp l JVMCFG_JARFILE_MANIFEST_MAIN_CLASS mclen = 0) = (take 11 l = ''Main-Class:'') \<and>
   (length l < 11 \<longrightarrow> strncmp l JVMCFG_JARFILE_MANIFEST_MAIN_CLASS mclen \<noteq> 0) \<and>
   strncmp ''main-class: a.B\<newline>'' JVMCFG_JARFILE_MANIFEST_MAIN_CLASS mclen \<noteq> 0 \<and>
   strncmp '' Main-Class: a.B\<newline>'' JVMCFG_JARFILE_MANIFEST_MAIN_CLASS mclen \<noteq> 0 \<and>
   (fgets bfr (mf_unread w) = Some (l, r) \<longrightarrow>
    read_loop heap bfr mnfname w =
      (if take 11 l = ''Main-Class:''
       then Some (attr_found heap mnfname l (w\<lparr>mf_unread := r, lines_read := Suc (lines_read w)\<rparr>))
       else read_loop heap bfr mnfname (w\<lparr>mf_unread := r, lines_read := Suc (lines_read w)\<rparr>)))"
proof -
  have m: "JVMCFG_JARFILE_MANIFEST_MAIN_CLASS = ''Main-Class:''"
    by (simp add: JVMCFG_JARFILE_MANIFEST_MAIN_CLASS_def)
  have p: "prefix JVMCFG_JARFILE_MANIFEST_MAIN_CLASS x = (take 11 x = ''Main-Class:'')" for x
  proof
    assume "prefix JVMCFG_JARFILE_MANIFEST_MAIN_CLASS x"
    then obtain t where "x = ''Main-Class:'' @ t" unfolding m prefix_def by blast
    then show "take 11 x = ''Main-Class:''" by simp
  next
    assume "take 11 x = ''Main-Class:''"
    then have "x = ''Main-Class:'' @ drop 11 x" by (metis append_take_drop_id)
    then show "prefix JVMCFG_JARFILE_MANIFEST_MAIN_CLASS x" unfolding m prefix_def by blast
  qed
  have s: "(strncmp x JVMCFG_JARFILE_MANIFEST_MAIN_CLASS mclen = 0) = (take 11 x = ''Main-Class:'')"
    for x
    by (simp add: strncmp_MAIN_CLASS p)
  have short: "length l < 11 \<longrightarrow> strncmp l JVMCFG_JARFILE_MANIFEST_MAIN_CLASS mclen \<noteq> 0"
  proof
    assume "length l < 11"
    then have "length (take 11 l) \<noteq> length ''Main-Class:''" by simp
    then have "take 11 l \<noteq> ''Main-Class:''" by metis
    then show "strncmp l JVMCFG_JARFILE_MANIFEST_MAIN_CLASS mclen \<noteq> 0" by (simp add: s)
  qed
  have c1: "strncmp ''main-class: a.B\<newline>'' JVMCFG_JARFILE_MANIFEST_MAIN_CLASS mclen \<noteq> 0"
    by (simp add: s)
  have c2: "strncmp '' Main-Class: a.B\<newline>'' JVMCFG_JARFILE_MANIFEST_MAIN_CLASS mclen \<noteq> 0"
    by (simp add: s)
  have loop: "fgets bfr (mf_unread w) = Some (l, r) \<longrightarrow>
    read_loop heap bfr mnfname w =
      (if take 11 l = ''Main-Class:''
       then Some (attr_found heap mnfname l (w\<lparr>mf_unread := r, lines_read := Suc (lines_read w)\<rparr>))
       else read_loop heap bfr mnfname (w\<lparr>mf_unread := r, lines_read := Suc (lines_read w)\<rparr>))"
    by (auto simp: read_loop_match read_loop_skip p)
  from m mclen_eq_11 s [of l] short c1 c2 loop show ?thesis by blast
qed

theorem attribute_name_match_witness:
  "strncmp ''Main-Class: a.B\<newline>'' JVMCFG_JARFILE_MANIFEST_MAIN_CLASS mclen = 0 \<and>
   strncmp ''Main-Clas'' JVMCFG_JARFILE_MANIFEST_MAIN_CLASS mclen \<noteq> 0 \<and>
   read_loop heap_unbounded 80 ''m'' (world0\<lparr>mf_unread := ''Main-Clas''\<rparr>) =
   read_loop heap_unbounded 80 ''m'' (world0\<lparr>mf_unread := [], lines_read := 1\<rparr>)"
proof -
  let ?w = "world0\<lparr>mf_unread := ''Main-Clas''\<rparr>"
  have f: "fgets 80 (mf_unread ?w) = Some (''Main-Clas'', [])"
    by code_simp
  from attribute_name_match
    [where l = "''Main-Class: a.B\<newline>''" and bfr = 80 and w = world0 and r = "[]"
       and mnfname = "''m''" and heap = heap_unbounded]
  have "(strncmp ''Main-Class: a.B\<newline>'' JVMCFG_JARFILE_MANIFEST_MAIN_CLASS mclen = 0) =
        (take 11 ''Main-Class: a.B\<newline>'' = ''Main-Class:'')"
    by blast
  then have a: "strncmp ''Main-Class: a.B\<newline>'' JVMCFG_JARFILE_MANIFEST_MAIN_CLASS mclen = 0"
    by simp
  from attribute_name_match
    [where l = "''Main-Clas''" and bfr = 80 and w = ?w and r = "[]" and mnfname = "''m''"
       and heap = heap_unbounded]
  have b: "length ''Main-Clas'' < 11 \<longrightarrow>
           strncmp ''Main-Clas'' JVMCFG_JARFILE_MANIFEST_MAIN_CLASS mclen \<noteq> 0"
    and c: "fgets 80 (mf_unread ?w) = Some (''Main-Clas'', []) \<longrightarrow>
      read_loop heap_unbounded 80 ''m'' ?w =
      (if take 11 ''Main-Clas'' = ''Main-Class:''
       then Some (attr_found heap_unbounded ''m'' ''Main-Clas''
                    (?w\<lparr>mf_unread := [], lines_read := Suc (lines_read ?w)\<rparr>))
       else read_loop heap_unbounded 80 ''m'' (?w\<lparr>mf_unread := [], lines_read := Suc (lines_read ?w)\<rparr>))"
    by blast+
  from b have b': "strncmp ''Main-Clas'' JVMCFG_JARFILE_MANIFEST_MAIN_CLASS mclen \<noteq> 0"
    by simp
  from c f have "read_loop heap_unbounded 80 ''m'' ?w =
      read_loop heap_unbounded 80 ''m'' (?w\<lparr>mf_unread := [], lines_read := Suc (lines_read ?w)\<rparr>)"
    by simp
  then have c': "read_loop heap_unbounded 80 ''m'' ?w =
      read_loop heap_unbounded 80 ''m'' (world0\<lparr>mf_unread := [], lines_read := 1\<rparr>)"
    by (simp add: world0_def)
  from a b' c' show ?thesis by blast
qed


lemma set_take_drop_nth:
  "x \<in> set (take n (drop i l)) \<Longrightarrow> \<exists>k. i \<le> k \<and> k < i + n \<and> k < length l \<and> x = l ! k"
proof -
  assume "x \<in> set (take n (drop i l))"
  then obtain m where m: "m < length (take n (drop i l))" and x: "x = take n (drop i l) ! m"
    by (auto simp: in_set_conv_nth)
  from m have "m < n" and "i + m < length l" by auto
  with x have "x = l ! (i + m)" by simp
  with \<open>m < n\<close> \<open>i + m < length l\<close> show ?thesis by (intro exI [of _ "i + m"]) simp
qed

lemma value_shape:
  assumes "mclen \<le> strlen l"
    and "i = first_nonwhite l mclen" and "j = first_white l i" and "i \<noteq> j"
  shows "length (take (j - i) (drop i l)) = j - i \<and> take (j - i) (drop i l) \<noteq> [] \<and>
         (\<forall>c\<in>set (take (j - i) (drop i l)). \<not> isspace c \<and> c \<noteq> NUL)"
proof -
  from scans_ordered [OF assms(1)] assms(2,3)
  have ij: "i \<le> j" and js: "j \<le> strlen l" by simp_all
  with assms(4) have lt: "i < j" by simp
  from js strlen_le_length [of l] have jl: "j \<le> length l" by simp
  with lt have len: "length (take (j - i) (drop i l)) = j - i" by simp
  with lt have ne: "take (j - i) (drop i l) \<noteq> []" by auto
  have "\<not> isspace c \<and> c \<noteq> NUL" if "c \<in> set (take (j - i) (drop i l))" for c
  proof -
    from set_take_drop_nth [OF that] obtain k
      where k: "i \<le> k" "k < i + (j - i)" "c = l ! k" by blast
    with lt have kj: "k < j" by simp
    with k(1) assms(3) first_white_skipped [of i k l] have "\<not> isspace (l ! k)" by simp
    moreover from kj js have "k < strlen l" by simp
    then have "l ! k \<noteq> NUL" by (rule strlen_nth_not_NUL)
    ultimately show ?thesis using k(3) by simp
  qed
  with len ne show ?thesis by blast
qed


lemma returned_name_slice:
  assumes "2 \<le> bfr" and "manifest_get_main heap bfr fs mnfname = Some (Return (Some v), w)"
  shows "\<exists>content l. fs mnfname = Some content \<and>
           find (prefix JVMCFG_JARFILE_MANIFEST_MAIN_CLASS) (fgets_lines bfr content) = Some l \<and>
           first_nonwhite l mclen \<noteq> first_white l (first_nonwhite l mclen) \<and>
           v = take (first_white l (first_nonwhite l mclen) - first_nonwhite l mclen)
                    (drop (first_nonwhite l mclen) l)"
proof -
  from assms(2) manifest_get_main_result
    [OF assms(1), where heap = heap and fs = fs and mnfname = mnfname]
  have r: "Return (Some v) =
     (case fs mnfname of
        None \<Rightarrow> Return None
      | Some content \<Rightarrow>
          if \<not> heap 0 bfr then HeapFailure
          else
          (case find (prefix JVMCFG_JARFILE_MANIFEST_MAIN_CLASS) (fgets_lines bfr content) of
             None \<Rightarrow> Return None
           | Some l \<Rightarrow>
               (let i = first_nonwhite l mclen; j = first_white l i
                in if i \<noteq> j
                   then (if heap 1 (j - i + 1) then Return (Some (take (j - i) (drop i l)))
                         else HeapFailure)
                   else Exit EXIT_MANIFEST_JAR)))"
    by simp
  then obtain content where c: "fs mnfname = Some content" by (cases "fs mnfname") auto
  with r have h: "heap 0 bfr" by (auto split: if_splits)
  with r c obtain l
    where l: "find (prefix JVMCFG_JARFILE_MANIFEST_MAIN_CLASS) (fgets_lines bfr content) = Some l"
    by (cases "find (prefix JVMCFG_JARFILE_MANIFEST_MAIN_CLASS) (fgets_lines bfr content)") auto
  from r c h l
  have "first_nonwhite l mclen \<noteq> first_white l (first_nonwhite l mclen) \<and>
        v = take (first_white l (first_nonwhite l mclen) - first_nonwhite l mclen)
                 (drop (first_nonwhite l mclen) l)"
    by (auto simp: Let_def split: if_splits)
  with c l show ?thesis by blast
qed

lemma slice_not_white:
  assumes "j = first_white l i" and "x \<in> set (take (j - i) (drop i l))"
  shows "\<not> isspace x"
proof -
  from set_take_drop_nth [OF assms(2)] obtain k
    where k: "i \<le> k" "k < i + (j - i)" "x = l ! k" by blast
  then have "k < j" by simp
  with k(1) assms(1) first_white_skipped [of i k l] k(3) show ?thesis by simp
qed




text \<open>
  Claim C8. \<^verbatim>\<open>isspace\<close> holds of exactly six bytes: space, tab, line feed, carriage
  return, form feed and vertical tab. Both scans use it: every byte from the end of the
  attribute name up to \<open>i\<close> is white and the byte at \<open>i\<close> is not, no byte from \<open>i\<close>
  up to \<open>j\<close> is white and the byte at \<open>j\<close> is, unless the scan reached the end of the
  line. So a line feed or a carriage return at or behind \<open>i\<close> stops the second scan.
  What the body of the loop returns for the line is the bytes \<open>i ..< j\<close> and nothing
  else, and a string that \<^verbatim>\<open>manifest_get_main\<close> returns has no white byte: neither a
  line feed nor a carriage return is part of it.
\<close>

theorem whitespace_class_delimits:
  assumes "i = first_nonwhite l mclen" and "j = first_white l i"
  shows "{c. isspace c} = {CHR 0x20, CHR 0x09, CHR 0x0A, CHR 0x0D, CHR 0x0C, CHR 0x0B} \<and>
         card {c. isspace c} = 6 \<and>
         (\<forall>k. mclen \<le> k \<and> k < i \<longrightarrow> isspace (l ! k)) \<and>
         (i < strlen l \<longrightarrow> \<not> isspace (l ! i)) \<and>
         (\<forall>k. i \<le> k \<and> k < j \<longrightarrow> \<not> isspace (l ! k)) \<and>
         (j < strlen l \<longrightarrow> isspace (l ! j)) \<and>
         (\<forall>k. i \<le> k \<and> (l ! k = CHR 0x0A \<or> l ! k = CHR 0x0D) \<longrightarrow> j \<le> k) \<and>
         (\<forall>v w'. attr_found heap mnfname l w = (Return (Some v), w') \<longrightarrow>
            v = take (j - i) (drop i l) \<and> (\<forall>x\<in>set v. \<not> isspace x) \<and>
            CHR 0x0A \<notin> set v \<and> CHR 0x0D \<notin> set v) \<and>
         (\<forall>u w'. 2 \<le> bfr \<and> manifest_get_main heap bfr fs mnfname = Some (Return (Some u), w') \<longrightarrow>
            (\<forall>x\<in>set u. \<not> isspace x) \<and> CHR 0x0A \<notin> set u \<and> CHR 0x0D \<notin> set u)"
proof -
  have cls: "{c. isspace c} = {CHR 0x20, CHR 0x09, CHR 0x0A, CHR 0x0D, CHR 0x0C, CHR 0x0B}"
    by (auto simp: isspace_def)
  have crd: "card {c. isspace c} = 6" unfolding cls by simp
  have nl: "isspace (CHR 0x0A)" and cr: "isspace (CHR 0x0D)" by (simp_all add: isspace_def)
  have a: "\<forall>k. mclen \<le> k \<and> k < i \<longrightarrow> isspace (l ! k)"
    using assms(1) first_nonwhite_skipped by blast
  have b: "i < strlen l \<longrightarrow> \<not> isspace (l ! i)"
    using assms(1) by (auto dest: first_nonwhite_stops)
  have c: "\<forall>k. i \<le> k \<and> k < j \<longrightarrow> \<not> isspace (l ! k)"
    using assms(2) first_white_skipped by blast
  have d: "j < strlen l \<longrightarrow> isspace (l ! j)"
    using assms(2) by (auto dest: first_white_stops)
  have e: "\<forall>k. i \<le> k \<and> (l ! k = CHR 0x0A \<or> l ! k = CHR 0x0D) \<longrightarrow> j \<le> k"
  proof (intro allI impI)
    fix k
    assume k: "i \<le> k \<and> (l ! k = CHR 0x0A \<or> l ! k = CHR 0x0D)"
    with nl cr have "isspace (l ! k)" by auto
    with c k show "j \<le> k" by (meson not_le)
  qed
  have white_free: "(\<forall>x\<in>set v. \<not> isspace x) \<and> CHR 0x0A \<notin> set v \<and> CHR 0x0D \<notin> set v"
    if "\<forall>x\<in>set v. \<not> isspace x" for v
    using that nl cr by blast
  have f: "\<forall>v w'. attr_found heap mnfname l w = (Return (Some v), w') \<longrightarrow>
            v = take (j - i) (drop i l) \<and> (\<forall>x\<in>set v. \<not> isspace x) \<and>
            CHR 0x0A \<notin> set v \<and> CHR 0x0D \<notin> set v"
  proof (intro allI impI)
    fix v w'
    assume af: "attr_found heap mnfname l w = (Return (Some v), w')"
    with attr_found_result [of heap mnfname l w] assms
    have v: "v = take (j - i) (drop i l)" by (auto simp: Let_def split: if_splits)
    with slice_not_white [OF assms(2)] have "\<forall>x\<in>set v. \<not> isspace x" by blast
    with v white_free show "v = take (j - i) (drop i l) \<and> (\<forall>x\<in>set v. \<not> isspace x) \<and>
            CHR 0x0A \<notin> set v \<and> CHR 0x0D \<notin> set v" by blast
  qed
  have g: "\<forall>u w'. 2 \<le> bfr \<and> manifest_get_main heap bfr fs mnfname = Some (Return (Some u), w') \<longrightarrow>
            (\<forall>x\<in>set u. \<not> isspace x) \<and> CHR 0x0A \<notin> set u \<and> CHR 0x0D \<notin> set u"
  proof (intro allI impI)
    fix u w'
    assume r: "2 \<le> bfr \<and> manifest_get_main heap bfr fs mnfname = Some (Return (Some u), w')"
    then have b2: "2 \<le> bfr"
      and run: "manifest_get_main heap bfr fs mnfname = Some (Return (Some u), w')" by simp_all
    from returned_name_slice [OF b2 run] obtain m
      where "u = take (first_white m (first_nonwhite m mclen) - first_nonwhite m mclen)
                      (drop (first_nonwhite m mclen) m)"
      by blast
    with slice_not_white [OF refl, of _ m "first_nonwhite m mclen"]
    have "\<forall>x\<in>set u. \<not> isspace x" by blast
    with white_free show "(\<forall>x\<in>set u. \<not> isspace x) \<and> CHR 0x0A \<notin> set u \<and> CHR 0x0D \<notin> set u"
      by blast
  qed
  from cls crd a b c d e f g show ?thesis by blast
qed

theorem whitespace_class_delimits_witness:
  "first_nonwhite (''Main-Class:'' @ [CHR 0x09] @ '' a.B'' @ [CHR 0x0D, CHR 0x0A]) mclen = 13 \<and>
   first_white (''Main-Class:'' @ [CHR 0x09] @ '' a.B'' @ [CHR 0x0D, CHR 0x0A]) 13 = 16 \<and>
   isspace ((''Main-Class:'' @ [CHR 0x09] @ '' a.B'' @ [CHR 0x0D, CHR 0x0A]) ! 11) \<and>
   \<not> isspace ((''Main-Class:'' @ [CHR 0x09] @ '' a.B'' @ [CHR 0x0D, CHR 0x0A]) ! 13) \<and>
   isspace ((''Main-Class:'' @ [CHR 0x09] @ '' a.B'' @ [CHR 0x0D, CHR 0x0A]) ! 16) \<and>
   fst (attr_found heap_unbounded ''m''
          (''Main-Class:'' @ [CHR 0x09] @ '' a.B'' @ [CHR 0x0D, CHR 0x0A]) world0) =
     Return (Some ''a.B'') \<and>
   map_option fst
     (manifest_get_main heap_unbounded 80
        (Map.empty(''m'' \<mapsto> ''Main-Class:'' @ [CHR 0x09] @ '' a.B'' @ [CHR 0x0D, CHR 0x0A])) ''m'') =
     Some (Return (Some ''a.B'')) \<and>
   CHR 0x0D \<notin> set ''a.B'' \<and> CHR 0x0A \<notin> set ''a.B''"
proof -
  let ?l = "''Main-Class:'' @ [CHR 0x09] @ '' a.B'' @ [CHR 0x0D, CHR 0x0A]"
  let ?fs = "Map.empty(''m'' \<mapsto> ?l)"
  let ?wa = "world0\<lparr>heap_blocks := 0\<rparr>"
  let ?wm = "\<lparr>mf_open = False, mf_unread = [], lines_read = 1, heap_blocks = 1, err_msgs = []\<rparr>"
  have i: "13 = first_nonwhite ?l mclen" by code_simp
  have j: "16 = first_white ?l 13" by code_simp
  have s: "strlen ?l = 18" by code_simp
  have af: "attr_found heap_unbounded ''m'' ?l world0 = (Return (Some ''a.B''), ?wa)"
    by code_simp
  have run: "manifest_get_main heap_unbounded 80 ?fs ''m'' = Some (Return (Some ''a.B''), ?wm)"
    by code_simp
  have h: "2 \<le> (80::nat)" by simp
  note t = whitespace_class_delimits
    [OF i j, where heap = heap_unbounded and mnfname = "''m''" and w = world0 and bfr = 80
       and fs = ?fs]
  from t have a: "\<forall>k. mclen \<le> k \<and> k < 13 \<longrightarrow> isspace (?l ! k)" by blast
  from t have b: "13 < strlen ?l \<longrightarrow> \<not> isspace (?l ! 13)" by blast
  from t have d: "16 < strlen ?l \<longrightarrow> isspace (?l ! 16)" by blast
  from t have f: "\<forall>v w'. attr_found heap_unbounded ''m'' ?l world0 = (Return (Some v), w') \<longrightarrow>
            v = take (16 - 13) (drop 13 ?l) \<and> (\<forall>x\<in>set v. \<not> isspace x) \<and>
            CHR 0x0A \<notin> set v \<and> CHR 0x0D \<notin> set v" by blast
  from t have g: "\<forall>u w'. 2 \<le> (80::nat) \<and>
            manifest_get_main heap_unbounded 80 ?fs ''m'' = Some (Return (Some u), w') \<longrightarrow>
            (\<forall>x\<in>set u. \<not> isspace x) \<and> CHR 0x0A \<notin> set u \<and> CHR 0x0D \<notin> set u" by blast
  from spec [OF a, of 11] have a': "isspace (?l ! 11)" by (simp add: mclen_eq_11)
  from b s have b': "\<not> isspace (?l ! 13)" by simp
  from d s have d': "isspace (?l ! 16)" by simp
  from f af have f': "CHR 0x0D \<notin> set ''a.B''" by blast
  from g h run have g': "CHR 0x0A \<notin> set ''a.B''" by blast
  from af have af': "fst (attr_found heap_unbounded ''m'' ?l world0) = Return (Some ''a.B'')"
    by simp
  from run have run': "map_option fst (manifest_get_main heap_unbounded 80 ?fs ''m'') =
     Some (Return (Some ''a.B''))" by simp
  from i j a' b' d' af' run' f' g' show ?thesis by simp
qed

text \<open>
  Claim C9. A returned class name is not empty, has no white byte and no NUL byte, and
  its length is \<open>j - i\<close> for the two indices computed on the first line that starts
  with the attribute name.
\<close>

theorem found_value_shape:
  assumes "2 \<le> bfr" and "manifest_get_main heap bfr fs mnfname = Some (Return (Some v), w)"
  shows "v \<noteq> [] \<and> (\<forall>c\<in>set v. \<not> isspace c \<and> c \<noteq> NUL) \<and>
         (\<exists>content l i j.
            fs mnfname = Some content \<and>
            find (prefix JVMCFG_JARFILE_MANIFEST_MAIN_CLASS) (fgets_lines bfr content) = Some l \<and>
            i = first_nonwhite l mclen \<and> j = first_white l i \<and>
            v = take (j - i) (drop i l) \<and> length v = j - i)"
proof -
  from returned_name_slice [OF assms] obtain content l
    where c: "fs mnfname = Some content"
      and l: "find (prefix JVMCFG_JARFILE_MANIFEST_MAIN_CLASS) (fgets_lines bfr content) = Some l"
      and ne0: "first_nonwhite l mclen \<noteq> first_white l (first_nonwhite l mclen)"
      and v0: "v = take (first_white l (first_nonwhite l mclen) - first_nonwhite l mclen)
                        (drop (first_nonwhite l mclen) l)"
    by blast
  define i where "i = first_nonwhite l mclen"
  define j where "j = first_white l i"
  from ne0 v0 have ne: "i \<noteq> j" and v: "v = take (j - i) (drop i l)"
    by (simp_all add: i_def j_def)
  from find_first_split [OF l] have "prefix JVMCFG_JARFILE_MANIFEST_MAIN_CLASS l" by blast
  then have "mclen \<le> strlen l" by (rule prefix_MAIN_CLASS_strlen)
  from value_shape [OF this i_def j_def ne] v
  have sh: "length v = j - i" "v \<noteq> []" "\<forall>c\<in>set v. \<not> isspace c \<and> c \<noteq> NUL" by simp_all
  from c l i_def j_def v sh(1) have
    "\<exists>content l i j.
            fs mnfname = Some content \<and>
            find (prefix JVMCFG_JARFILE_MANIFEST_MAIN_CLASS) (fgets_lines bfr content) = Some l \<and>
            i = first_nonwhite l mclen \<and> j = first_white l i \<and>
            v = take (j - i) (drop i l) \<and> length v = j - i"
    by blast
  with sh show ?thesis by blast
qed

theorem found_value_shape_witness:
  "manifest_get_main heap_unbounded 80 (Map.empty(''m'' \<mapsto> ''Main-Class:   foo.Bar   \<newline>'')) ''m'' =
     Some (Return (Some ''foo.Bar''),
           \<lparr>mf_open = False, mf_unread = [], lines_read = 1, heap_blocks = 1, err_msgs = []\<rparr>) \<and>
   ''foo.Bar'' \<noteq> [] \<and> NUL \<notin> set ''foo.Bar''"
proof -
  let ?fs = "Map.empty(''m'' \<mapsto> ''Main-Class:   foo.Bar   \<newline>'')"
  let ?w = "\<lparr>mf_open = False, mf_unread = [], lines_read = 1, heap_blocks = 1, err_msgs = []\<rparr>"
  have h1: "2 \<le> (80::nat)" by simp
  have h2: "manifest_get_main heap_unbounded 80 ?fs ''m'' = Some (Return (Some ''foo.Bar''), ?w)"
    by code_simp
  from found_value_shape [OF h1 h2] h2 show ?thesis by blast
qed

text \<open>
  Claim C10. With a buffer of at least two bytes the call ends for every heap, every
  file system and every file name, after reading no more lines than the stream delivers, which
  are no more than the file has bytes. On a line that starts with the attribute name
  the two scans, total functions by their termination proofs, give indices with
  \<open>mclen \<le> i \<le> j \<le> strlen l \<le> length l\<close>.
\<close>

theorem scan_terminates:
  assumes "2 \<le> bfr"
  shows "(\<exists>r w. manifest_get_main heap bfr fs mnfname = Some (r, w) \<and>
                lines_read w \<le> (case fs mnfname of None \<Rightarrow> 0
                                  | Some content \<Rightarrow> length (fgets_lines bfr content))) \<and>
         length (fgets_lines bfr s) \<le> length s \<and>
         (prefix JVMCFG_JARFILE_MANIFEST_MAIN_CLASS l \<longrightarrow>
            mclen \<le> first_nonwhite l mclen \<and>
            first_nonwhite l mclen \<le> first_white l (first_nonwhite l mclen) \<and>
            first_white l (first_nonwhite l mclen) \<le> strlen l \<and> strlen l \<le> length l)"
proof -
  from manifest_get_main_closed
    [OF assms, where heap = heap and fs = fs and mnfname = mnfname]
  have a: "\<exists>r w. manifest_get_main heap bfr fs mnfname = Some (r, w) \<and>
                lines_read w \<le> (case fs mnfname of None \<Rightarrow> 0
                                  | Some content \<Rightarrow> length (fgets_lines bfr content))"
    by blast
  have c: "prefix JVMCFG_JARFILE_MANIFEST_MAIN_CLASS l \<longrightarrow>
            mclen \<le> first_nonwhite l mclen \<and>
            first_nonwhite l mclen \<le> first_white l (first_nonwhite l mclen) \<and>
            first_white l (first_nonwhite l mclen) \<le> strlen l \<and> strlen l \<le> length l"
    using scans_ordered [of l] prefix_MAIN_CLASS_strlen [of l] strlen_le_length [of l] by blast
  from a fgets_lines_length [of bfr s] c show ?thesis by blast
qed

theorem scan_terminates_witness:
  "(\<exists>r w. manifest_get_main heap_unbounded 80 (Map.empty(''m'' \<mapsto> ''Created-By: x\<newline>Main-Class: a.B\<newline>'')) ''m'' =
            Some (r, w) \<and> lines_read w \<le> 2) \<and>
   first_nonwhite ''Main-Class: a.B\<newline>'' mclen \<le>
     first_white ''Main-Class: a.B\<newline>'' (first_nonwhite ''Main-Class: a.B\<newline>'' mclen) \<and>
   first_white ''Main-Class: a.B\<newline>'' (first_nonwhite ''Main-Class: a.B\<newline>'' mclen) \<le> 16"
proof -
  let ?c = "''Created-By: x\<newline>Main-Class: a.B\<newline>''"
  let ?l = "''Main-Class: a.B\<newline>''"
  have h: "2 \<le> (80::nat)" by simp
  have n: "length (fgets_lines 80 ?c) = 2" by code_simp
  have p: "prefix JVMCFG_JARFILE_MANIFEST_MAIN_CLASS ?l" by code_simp
  have s: "strlen ?l = 16" by code_simp
  note t = scan_terminates
    [OF h, where heap = heap_unbounded and fs = "Map.empty(''m'' \<mapsto> ?c)" and mnfname = "''m''"
       and s = ?c and l = ?l]
  from t have "\<exists>r w. manifest_get_main heap_unbounded 80 (Map.empty(''m'' \<mapsto> ?c)) ''m'' = Some (r, w) \<and>
        lines_read w \<le> (case (Map.empty(''m'' \<mapsto> ?c)) ''m'' of None \<Rightarrow> 0
                          | Some content \<Rightarrow> length (fgets_lines 80 content))"
    by blast
  then have a: "\<exists>r w. manifest_get_main heap_unbounded 80 (Map.empty(''m'' \<mapsto> ?c)) ''m'' = Some (r, w) \<and>
        lines_read w \<le> 2"
    using n by simp
  from t p have "first_nonwhite ?l mclen \<le> first_white ?l (first_nonwhite ?l mclen) \<and>
            first_white ?l (first_nonwhite ?l mclen) \<le> strlen ?l"
    by blast
  with s a show ?thesis by simp
qed

lemma read_line_no_newline:
  "CHR 0x0A \<notin> set a \<Longrightarrow> length a \<le> k \<Longrightarrow>
   read_line k (a @ b) =
   (a @ fst (read_line (k - length a) b), snd (read_line (k - length a) b))"
proof (induction a arbitrary: k)
  case Nil
  then show ?case by simp
next
  case (Cons x a)
  then obtain k' where k: "k = Suc k'" by (cases k) auto
  with Cons.prems have "CHR 0x0A \<notin> set a" "length a \<le> k'" "x \<noteq> CHR 0x0A" by auto
  with Cons.IH [of k'] k show ?case by (simp split: prod.splits)
qed

lemma first_nonwhite_eq:
  assumes "i \<le> n" and "n \<le> strlen s"
    and "\<forall>k. i \<le> k \<and> k < n \<longrightarrow> isspace (s ! k)"
    and "n < strlen s \<longrightarrow> \<not> isspace (s ! n)"
  shows "first_nonwhite s i = n"
proof -
  let ?m = "first_nonwhite s i"
  from assms(1,2) have ms: "?m \<le> strlen s" by (simp add: first_nonwhite_le)
  have im: "i \<le> ?m" by (rule first_nonwhite_ge)
  have "\<not> ?m < n"
  proof
    assume lt: "?m < n"
    with assms(2) have "?m < strlen s" by simp
    then have "\<not> isspace (s ! ?m)" by (rule first_nonwhite_stops)
    with assms(3) im lt show False by blast
  qed
  moreover have "\<not> n < ?m"
  proof
    assume lt: "n < ?m"
    from first_nonwhite_skipped [OF assms(1) lt] have "isspace (s ! n)" .
    moreover from lt ms have "n < strlen s" by simp
    ultimately show False using assms(4) by blast
  qed
  ultimately show ?thesis by simp
qed

lemma first_white_eq:
  assumes "j \<le> n" and "n \<le> strlen s"
    and "\<forall>k. j \<le> k \<and> k < n \<longrightarrow> \<not> isspace (s ! k)"
    and "n < strlen s \<longrightarrow> isspace (s ! n)"
  shows "first_white s j = n"
proof -
  let ?m = "first_white s j"
  from assms(1,2) have ms: "?m \<le> strlen s" by (simp add: first_white_le)
  have jm: "j \<le> ?m" by (rule first_white_ge)
  have "\<not> ?m < n"
  proof
    assume lt: "?m < n"
    with assms(2) have "?m < strlen s" by simp
    then have "isspace (s ! ?m)" by (rule first_white_stops)
    with assms(3) jm lt show False by blast
  qed
  moreover have "\<not> n < ?m"
  proof
    assume lt: "n < ?m"
    from first_white_skipped [OF assms(1) lt] have "\<not> isspace (s ! n)" .
    moreover from lt ms have "n < strlen s" by simp
    ultimately show False using assms(4) by blast
  qed
  ultimately show ?thesis by simp
qed

lemma isspace_not_NUL: "isspace c \<Longrightarrow> c \<noteq> NUL"
  by (auto simp: isspace_def NUL_def)

lemma MAIN_CLASS_no_newline: "CHR 0x0A \<notin> set JVMCFG_JARFILE_MANIFEST_MAIN_CLASS"
  by (simp add: JVMCFG_JARFILE_MANIFEST_MAIN_CLASS_def)

lemma scans_of_padded_line:
  assumes "length p = n" and "mclen \<le> n" and "NUL \<notin> set p"
    and "\<forall>k. mclen \<le> k \<and> k < n \<longrightarrow> isspace (p ! k)"
    and "val \<noteq> []" and "\<forall>c\<in>set val. \<not> isspace c \<and> c \<noteq> NUL"
    and "\<forall>c\<in>set t. isspace c"
  shows "first_nonwhite (p @ val @ t) mclen = n \<and>
         first_white (p @ val @ t) n = n + length val"
proof -
  let ?l = "p @ val @ t"
  from assms(7) have "NUL \<notin> set t" by (auto dest: isspace_not_NUL)
  with assms(3,6) have "NUL \<notin> set ?l" by auto
  then have sl: "strlen ?l = length ?l" by (rule strlen_no_NUL)
  have i: "first_nonwhite ?l mclen = n"
  proof (rule first_nonwhite_eq)
    show "mclen \<le> n" by (rule assms(2))
    show "n \<le> strlen ?l" using sl assms(1) by simp
    show "\<forall>k. mclen \<le> k \<and> k < n \<longrightarrow> isspace (?l ! k)"
      using assms(1,4) by (simp add: nth_append)
    show "n < strlen ?l \<longrightarrow> \<not> isspace (?l ! n)"
      using assms(1,5,6) by (cases val) (simp_all add: nth_append)
  qed
  have j: "first_white ?l n = n + length val"
  proof (rule first_white_eq)
    show "n \<le> n + length val" by simp
    show "n + length val \<le> strlen ?l" using sl assms(1) by simp
    show "\<forall>k. n \<le> k \<and> k < n + length val \<longrightarrow> \<not> isspace (?l ! k)"
    proof (intro allI impI)
      fix k
      assume k: "n \<le> k \<and> k < n + length val"
      then have kn: "k - n < length val" by arith
      with k have "?l ! k = val ! (k - n)" using assms(1) by (simp add: nth_append)
      moreover from kn have "val ! (k - n) \<in> set val" by simp
      ultimately show "\<not> isspace (?l ! k)" using assms(6) by simp
    qed
    show "n + length val < strlen ?l \<longrightarrow> isspace (?l ! (n + length val))"
    proof
      assume "n + length val < strlen ?l"
      with sl assms(1) have tn: "t \<noteq> []" by auto
      have "?l ! (n + length val) = t ! 0" using assms(1) by (simp add: nth_append)
      moreover from tn have "t ! 0 \<in> set t" by simp
      ultimately show "isspace (?l ! (n + length val))" using assms(7) by simp
    qed
  qed
  from i j show ?thesis by blast
qed

lemma fgets_padded_line:
  assumes "CHR 0x0A \<notin> set a" and "a \<noteq> []" and "length a < bfr"
  shows "\<exists>t r. fgets bfr (a @ b) = Some (a @ t, r) \<and> b = t @ r"
proof -
  let ?k = "bfr - 1 - length a"
  obtain t r where tr: "read_line ?k b = (t, r)" by (cases "read_line ?k b")
  then have b: "b = t @ r" by (rule read_line_append)
  from assms(3) have le: "length a \<le> bfr - 1" by simp
  from read_line_no_newline [OF assms(1) le, of b] tr
  have rl: "read_line (bfr - 1) (a @ b) = (a @ t, r)" by simp
  from assms(2) obtain c cs where "a @ t = c # cs" by (cases a) auto
  moreover from assms(2,3) have "bfr \<noteq> 0" "bfr \<noteq> 1" by (cases a; simp)+
  ultimately have "fgets bfr (a @ b) = Some (a @ t, r)" using rl by (simp add: fgets_def)
  with b show ?thesis by blast
qed

text \<open>
  Claim C4. A manifest whose first line is the attribute name, a run of white bytes
  that may be empty, a value and a run of white bytes returns the value and nothing
  else. That the input is one valid line is made precise as follows: the white bytes in
  front of the value do not include the line feed, which would end the line there; the
  value is not empty and has neither a white byte nor a NUL byte, so it is text that a
  C string can hold; and the line up to the end of the value fits the buffer that
  \<^verbatim>\<open>fgets\<close> fills. The heap is taken to deliver the line buffer and the block for the
  value.
\<close>

theorem padded_value_found:
  assumes "fs mnfname = Some (JVMCFG_JARFILE_MANIFEST_MAIN_CLASS @ ws1 @ val @ ws2)"
    and "\<forall>c\<in>set ws1. isspace c \<and> c \<noteq> CHR 0x0A"
    and "val \<noteq> []" and "\<forall>c\<in>set val. \<not> isspace c \<and> c \<noteq> NUL"
    and "\<forall>c\<in>set ws2. isspace c"
    and "length (JVMCFG_JARFILE_MANIFEST_MAIN_CLASS @ ws1 @ val) < bfr"
    and "heap 0 bfr" and "heap 1 (length val + 1)"
  shows "\<exists>w. manifest_get_main heap bfr fs mnfname = Some (Return (Some val), w) \<and>
             lines_read w = 1 \<and> err_msgs w = []"
proof -
  let ?M = JVMCFG_JARFILE_MANIFEST_MAIN_CLASS
  let ?p = "?M @ ws1"
  let ?a = "?p @ val"
  let ?w = "world0\<lparr>mf_open := True, mf_unread := ?a @ ws2, heap_blocks := 1\<rparr>"
  have nl: "isspace (CHR 0x0A)" by (simp add: isspace_def)
  with assms(2,4) MAIN_CLASS_no_newline have "CHR 0x0A \<notin> set ?a" by auto
  moreover from assms(3) have "?a \<noteq> []" by simp
  moreover from assms(6) have "length ?a < bfr" by simp
  ultimately obtain t r where f: "fgets bfr (?a @ ws2) = Some (?a @ t, r)" and ws2: "ws2 = t @ r"
    using fgets_padded_line [of ?a bfr ws2] by blast
  from ws2 assms(5) have t: "\<forall>c\<in>set t. isspace c" by auto
  let ?l = "?p @ val @ t"
  from f have f': "fgets bfr (mf_unread ?w) = Some (?l, r)" by simp
  have pre: "prefix ?M ?l" by simp
  let ?w1 = "?w\<lparr>mf_unread := r, lines_read := Suc (lines_read ?w)\<rparr>"
  from read_loop_match [OF f' pre, where heap = heap and mnfname = mnfname]
    manifest_get_main_line_buffer
      [where fs = fs and mnfname = mnfname and heap = heap and bfr = bfr
         and content = "?a @ ws2", OF _ assms(7)] assms(1)
  have run: "manifest_get_main heap bfr fs mnfname = Some (attr_found heap mnfname ?l ?w1)"
    by simp
  have "NUL \<notin> set ?p" using assms(2) MAIN_CLASS_no_NUL by (auto dest: isspace_not_NUL)
  moreover have "\<forall>k. mclen \<le> k \<and> k < length ?p \<longrightarrow> isspace (?p ! k)"
  proof (intro allI impI)
    fix k
    assume k: "mclen \<le> k \<and> k < length ?p"
    then have kn: "k - mclen < length ws1" by (simp add: mclen_eq_length) arith
    with k have "?p ! k = ws1 ! (k - mclen)" by (simp add: nth_append mclen_eq_length)
    moreover from kn have "ws1 ! (k - mclen) \<in> set ws1" by simp
    ultimately show "isspace (?p ! k)" using assms(2) by simp
  qed
  moreover have "mclen \<le> length ?p" by (simp add: mclen_eq_length)
  ultimately have ij: "first_nonwhite ?l mclen = length ?p \<and>
      first_white ?l (length ?p) = length ?p + length val"
    using scans_of_padded_line [of ?p "length ?p" val t] assms(3,4) t by blast
  with assms(3) have ne: "first_nonwhite ?l mclen \<noteq> first_white ?l (first_nonwhite ?l mclen)"
    by simp
  have "take (length val) (drop (length ?p) ?l) = val" by simp
  moreover from ij assms(8)
  have "heap (heap_blocks ?w1)
          (first_white ?l (first_nonwhite ?l mclen) - first_nonwhite ?l mclen + 1)"
    by (simp add: world0_def)
  from attr_found_value
    [where heap = heap and w = ?w1 and l = ?l and mnfname = mnfname, OF ne this]
  have "attr_found heap mnfname ?l ?w1 =
        (Return (Some (take (first_white ?l (first_nonwhite ?l mclen) - first_nonwhite ?l mclen)
                            (drop (first_nonwhite ?l mclen) ?l))),
         ?w1\<lparr>mf_open := False\<rparr>)" .
  ultimately
  have "attr_found heap mnfname ?l ?w1 = (Return (Some val), ?w1\<lparr>mf_open := False\<rparr>)"
    using ij by simp
  with run show ?thesis by (simp add: world0_def)
qed

theorem padded_value_found_witness:
  "\<exists>w. manifest_get_main heap_unbounded 80 (Map.empty(''m'' \<mapsto> ''Main-Class:   foo.Bar   \<newline>'')) ''m'' =
        Some (Return (Some ''foo.Bar''), w) \<and> lines_read w = 1 \<and> err_msgs w = []"
proof -
  let ?fs = "Map.empty(''m'' \<mapsto> ''Main-Class:   foo.Bar   \<newline>'')"
  have h1: "?fs ''m'' = Some (JVMCFG_JARFILE_MANIFEST_MAIN_CLASS @ ''   '' @ ''foo.Bar'' @ ''   \<newline>'')"
    by (simp add: JVMCFG_JARFILE_MANIFEST_MAIN_CLASS_def)
  have h2: "\<forall>c\<in>set ''   ''. isspace c \<and> c \<noteq> CHR 0x0A" by (simp add: isspace_def)
  have h3: "''foo.Bar'' \<noteq> []" by simp
  have h4: "\<forall>c\<in>set ''foo.Bar''. \<not> isspace c \<and> c \<noteq> NUL" by (simp add: isspace_def NUL_def)
  have h5: "\<forall>c\<in>set ''   \<newline>''. isspace c" by (simp add: isspace_def)
  have h6: "length (JVMCFG_JARFILE_MANIFEST_MAIN_CLASS @ ''   '' @ ''foo.Bar'') < 80"
    by (simp add: JVMCFG_JARFILE_MANIFEST_MAIN_CLASS_def)
  have h7: "heap_unbounded 0 80" and h8: "heap_unbounded 1 (length ''foo.Bar'' + 1)"
    by (simp_all add: heap_unbounded_def)
  from padded_value_found
    [where fs = ?fs and mnfname = "''m''" and heap = heap_unbounded, OF h1 h2 h3 h4 h5 h6 h7 h8]
  show ?thesis .
qed

end
